theory Spec2Isabelle
  imports Main "HOL-Library.AList" "HOL-Library.Sublist"
begin

section \<open>Text and characters\<close>

text \<open>
  A Python \<open>str\<close> is modelled as a HOL \<open>string\<close>, one \<open>char\<close> per code point; the
  embedding therefore covers text whose code points lie below 256. On that range the
  character classes below are the ones Python's \<open>re\<close> and \<open>str\<close> methods use for
  \<open>str\<close> patterns: \<open>\d\<close> is \<open>0\<close>..\<open>9\<close>, \<open>\s\<close> and \<open>str.strip\<close> share one set of
  twelve white-space characters, \<open>\w\<close> is every alphanumeric character and the underscore,
  and \<open>re.IGNORECASE\<close> identifies the two cases of the ASCII letters only.
\<close>

definition code :: "char \<Rightarrow> nat" where
  "code c = of_char c"

definition is_digit :: "char \<Rightarrow> bool" where
  "is_digit c = (48 \<le> code c \<and> code c \<le> 57)"

definition is_upper :: "char \<Rightarrow> bool" where
  "is_upper c = (65 \<le> code c \<and> code c \<le> 90)"

definition is_lower :: "char \<Rightarrow> bool" where
  "is_lower c = (97 \<le> code c \<and> code c \<le> 122)"

definition is_space :: "char \<Rightarrow> bool" where
  "is_space c = (code c \<in> set [9, 10, 11, 12, 13, 28, 29, 30, 31, 32, 133, 160])"

definition is_word :: "char \<Rightarrow> bool" where
  "is_word c = (is_digit c \<or> is_upper c \<or> is_lower c \<or> code c = 95
     \<or> code c \<in> set [170, 178, 179, 181, 185, 186, 188, 189, 190]
     \<or> (192 \<le> code c \<and> code c \<le> 214) \<or> (216 \<le> code c \<and> code c \<le> 246)
     \<or> 248 \<le> code c)"

definition lower_char :: "char \<Rightarrow> char" where
  "lower_char c = (if is_upper c then char_of (code c + 32) else c)"

text \<open>
  \<open>str.upper\<close> maps \<open>a\<close>..\<open>z\<close> and the accented lower-case letters to their capitals,
  \<open>0xDF\<close> to \<open>SS\<close>, and \<open>0xB5\<close> and \<open>0xFF\<close> to the capitals \<open>U+039C\<close> and \<open>U+0178\<close>,
  which lie above 255. The strings that the code upper-cases (the values of a parsed
  reply) are therefore modelled over \<open>uchar\<close>, the 256 code points and these two capitals:
  \<open>upper\<close> stays inside this alphabet. Neither capital is white space, and \<open>str.upper\<close>
  leaves both unchanged.
\<close>

datatype uchar = Latin char | Capital_Mu | Capital_Y_Diaeresis

type_synonym ustring = "uchar list"

definition ustr :: "string \<Rightarrow> ustring" where
  "ustr s = map Latin s"

fun upper_char :: "uchar \<Rightarrow> ustring" where
  "upper_char (Latin c) =
     (if is_lower c then [Latin (char_of (code c - 32))]
      else if code c = 223 then [Latin CHR ''S'', Latin CHR ''S'']
      else if code c = 181 then [Capital_Mu]
      else if code c = 255 then [Capital_Y_Diaeresis]
      else if 224 \<le> code c \<and> code c \<le> 254 \<and> code c \<noteq> 247 then [Latin (char_of (code c - 32))]
      else [Latin c])"
| "upper_char Capital_Mu = [Capital_Mu]"
| "upper_char Capital_Y_Diaeresis = [Capital_Y_Diaeresis]"

definition upper :: "ustring \<Rightarrow> ustring" where
  "upper s = concat (map upper_char s)"

fun is_uspace :: "uchar \<Rightarrow> bool" where
  "is_uspace (Latin c) = is_space c"
| "is_uspace Capital_Mu = False"
| "is_uspace Capital_Y_Diaeresis = False"

definition strip :: "ustring \<Rightarrow> ustring" where
  "strip s = rev (dropWhile is_uspace (rev (dropWhile is_uspace s)))"

text \<open>Python's \<open>needle in haystack\<close> on two strings.\<close>

fun contains :: "'a list \<Rightarrow> 'a list \<Rightarrow> bool" where
  "contains needle [] = (needle = [])"
| "contains needle (x # xs) = (prefix needle (x # xs) \<or> contains needle xs)"

text \<open>\<open>sep.join(parts)\<close>\<close>

fun join :: "string \<Rightarrow> string list \<Rightarrow> string" where
  "join sep [] = []"
| "join sep [p] = p"
| "join sep (p # q # ps) = p @ sep @ join sep (q # ps)"

section \<open>The regular expressions of the extractor\<close>

text \<open>
  The patterns of \<open>extract_using_regex\<close> use literals, character classes, the word
  boundary \<open>\b\<close>, concatenation, alternation and greedy bounded repetition. \<open>rx\<close> is that
  fragment of Python's pattern language, and \<open>run\<close> is the backtracking matcher: at a
  position of the text it lists, in the order in which backtracking would try them, the
  positions at which a match of the pattern can end. A position is the character before
  the cursor (needed by \<open>\b\<close>) and the text after it. None of the repeated sub-patterns
  here can match the empty string, so \<open>run\<close> only follows iterations that consume input.
\<close>

datatype rx =
    Eps
  | Sym "char \<Rightarrow> bool"
  | Bnd
  | Cat rx rx
  | Alt rx rx
  | Rep rx nat "nat option"

type_synonym pos = "char option \<times> string"

fun height :: "rx \<Rightarrow> nat" where
  "height Eps = 0"
| "height (Sym p) = 0"
| "height Bnd = 0"
| "height (Cat a b) = Suc (max (height a) (height b))"
| "height (Alt a b) = Suc (max (height a) (height b))"
| "height (Rep a m n) = Suc (height a)"

definition word_before :: "char option \<Rightarrow> bool" where
  "word_before c = (case c of None \<Rightarrow> False | Some x \<Rightarrow> is_word x)"

definition word_after :: "string \<Rightarrow> bool" where
  "word_after xs = (case xs of [] \<Rightarrow> False | x # _ \<Rightarrow> is_word x)"

function run :: "rx \<Rightarrow> pos \<Rightarrow> pos list" where
  "run Eps s = [s]"
| "run (Sym p) (c, []) = []"
| "run (Sym p) (c, x # xs) = (if p x then [(Some x, xs)] else [])"
| "run Bnd (c, xs) = (if word_before c \<noteq> word_after xs then [(c, xs)] else [])"
| "run (Cat a b) s = concat (map (run b) (run a s))"
| "run (Alt a b) s = run a s @ run b s"
| "run (Rep a m n) s =
     (if n = Some 0 then []
      else concat (map (run (Rep a (m - 1) (map_option (\<lambda>k. k - 1) n)))
                       (filter (\<lambda>s'. length (snd s') < length (snd s)) (run a s))))
     @ (if m = 0 then [s] else [])"
  by pat_completeness auto
termination
  by (relation "measures [\<lambda>(r, s). height r, \<lambda>(r, s). length (snd s)]") (auto simp: less_Suc_eq_le)

text \<open>
  \<open>re.search\<close>: the first match at the leftmost position that has one; the value is the
  matched text (\<open>group(0)\<close>). The end of the text is a position too.
\<close>

fun search_from :: "rx \<Rightarrow> char option \<Rightarrow> string \<Rightarrow> string option" where
  "search_from r c [] = (case run r (c, []) of [] \<Rightarrow> None | _ # _ \<Rightarrow> Some [])"
| "search_from r c (x # xs) =
     (case run r (c, x # xs) of
        [] \<Rightarrow> search_from r (Some x) xs
      | (c', rest) # _ \<Rightarrow> Some (take (length (x # xs) - length rest) (x # xs)))"

definition search :: "rx \<Rightarrow> string \<Rightarrow> string option" where
  "search r text = search_from r None text"

text \<open>
  \<open>re.findall\<close> for a pattern without groups: the matched texts of the non-overlapping
  matches, found from left to right; the scan resumes where the last match ended.
\<close>

function findall_from :: "rx \<Rightarrow> char option \<Rightarrow> string \<Rightarrow> string list" where
  "findall_from r c [] = (case run r (c, []) of [] \<Rightarrow> [] | _ # _ \<Rightarrow> [[]])"
| "findall_from r c (x # xs) =
     (case run r (c, x # xs) of
        [] \<Rightarrow> findall_from r (Some x) xs
      | (c', rest) # _ \<Rightarrow>
          (if length rest < length (x # xs)
           then take (length (x # xs) - length rest) (x # xs) # findall_from r c' rest
           else [] # findall_from r (Some x) xs))"
  by pat_completeness auto
termination
  by (relation "measure (\<lambda>(r, c, xs). length xs)") auto

definition findall :: "rx \<Rightarrow> string \<Rightarrow> string list" where
  "findall r text = findall_from r None text"

fun chars :: "(char \<Rightarrow> rx) \<Rightarrow> string \<Rightarrow> rx" where
  "chars f [] = Eps"
| "chars f [x] = f x"
| "chars f (x # y # ys) = Cat (f x) (chars f (y # ys))"

definition lit :: "string \<Rightarrow> rx" where
  "lit s = chars (\<lambda>x. Sym (\<lambda>c. c = x)) s"

definition lit_ci :: "string \<Rightarrow> rx" where
  "lit_ci s = chars (\<lambda>x. Sym (\<lambda>c. lower_char c = lower_char x)) s"

definition plus :: "(char \<Rightarrow> bool) \<Rightarrow> rx" where
  "plus p = Rep (Sym p) 1 None"

definition exactly :: "nat \<Rightarrow> (char \<Rightarrow> bool) \<Rightarrow> rx" where
  "exactly n p = Rep (Sym p) n (Some n)"

text \<open>\<^verbatim>\<open>(Dubai|Abu Dhabi|Sharjah|Ajman|Umm Al Quwain|Ras Al Khaimah|Fujairah)\<close> with \<open>re.IGNORECASE\<close>\<close>

definition place_rx :: rx where
  "place_rx = Alt (lit_ci ''Dubai'') (Alt (lit_ci ''Abu Dhabi'') (Alt (lit_ci ''Sharjah'')
     (Alt (lit_ci ''Ajman'') (Alt (lit_ci ''Umm Al Quwain'') (Alt (lit_ci ''Ras Al Khaimah'')
     (lit_ci ''Fujairah''))))))"

text \<open>\<^verbatim>\<open>\b\d{8,9}\b\<close>\<close>

definition uid_rx :: rx where
  "uid_rx = Cat Bnd (Cat (Rep (Sym is_digit) 8 (Some 9)) Bnd)"

text \<open>\<^verbatim>\<open>Z\d{7}\<close>\<close>

definition passport_rx :: rx where
  "passport_rx = Cat (lit ''Z'') (exactly 7 is_digit)"

text \<open>\<^verbatim>\<open>\d{4}/\d{2}/\d{2}\<close>\<close>

definition date_rx :: rx where
  "date_rx = Cat (exactly 4 is_digit) (Cat (lit ''/'') (Cat (exactly 2 is_digit)
     (Cat (lit ''/'') (exactly 2 is_digit))))"

text \<open>\<^verbatim>\<open>([A-Z]+\s+){2,}[A-Z]+\<close>\<close>

definition name_rx :: rx where
  "name_rx = Cat (Rep (Cat (plus is_upper) (plus is_space)) 2 None) (plus is_upper)"

text \<open>\<^verbatim>\<open>MACKSOFY.*SERVICES CO\.\<close>; the dot matches every character but the line feed.\<close>

definition sponsor_rx :: rx where
  "sponsor_rx = Cat (lit ''MACKSOFY'') (Cat (Rep (Sym (\<lambda>c. code c \<noteq> 10)) 0 None)
     (lit ''SERVICES CO.''))"

section \<open>Records and values\<close>

text \<open>
  The record of \<open>extract_using_regex\<close> is a Python \<open>dict\<close> from field names to strings,
  here an association list read with \<open>map_of\<close> and written with \<open>AList.update\<close>.
  \<open>json.loads\<close> can return any JSON value, and \<open>process_and_query\<close> returns what it
  parsed: \<open>json\<close> is the type of these values (the code never looks at the value of a
  number). \<open>json.loads\<close> has three outcomes: it returns a value, it raises
  \<open>JSONDecodeError\<close>, or it raises another exception (\<open>RecursionError\<close> on a deeply nested
  text).
\<close>

type_synonym dict = "(string \<times> string) list"

datatype json =
    JNull
  | JBool bool
  | JNum int
  | JStr ustring
  | JArr "json list"
  | JObj "(string \<times> json) list"

datatype loaded = Loaded json | JSONDecodeError | Other_exception

definition dict_json :: "dict \<Rightarrow> json" where
  "dict_json d = JObj (map (\<lambda>(k, v). (k, JStr (ustr v))) d)"

definition schema_keys :: "string list" where
  "schema_keys = [''name'', ''uid_no'', ''passport_no'', ''profession'', ''sponsor'',
     ''place_of_issue'', ''issue_date'', ''expiry_date'']"

text \<open>
  A complete record: an object in which each of the eight schema keys is bound to a
  non-empty string (a value or the sentinel \<open>Not Found\<close>): none missing, none null.
\<close>

definition bound_to_text :: "json \<Rightarrow> string \<Rightarrow> bool" where
  "bound_to_text j k =
     (case j of
        JObj kvs \<Rightarrow> (case map_of kvs k of Some (JStr v) \<Rightarrow> v \<noteq> [] | _ \<Rightarrow> False)
      | _ \<Rightarrow> False)"

definition complete_record :: "json \<Rightarrow> bool" where
  "complete_record j = list_all (bound_to_text j) schema_keys"

datatype error =
    Error_uploading_to_S3
  | Error_in_LLM_processing
  | Error_processing_Emirates_ID

section \<open>extract\_using\_regex\<close>

definition extract_using_regex :: "string \<Rightarrow> dict" where
  "extract_using_regex text =
     (let extracted_info = [(''name'', ''Not Found''), (''uid_no'', ''Not Found''),
            (''passport_no'', ''Not Found''), (''profession'', ''Not Found''),
            (''sponsor'', ''Not Found''), (''place_of_issue'', ''Not Found''),
            (''issue_date'', ''Not Found''), (''expiry_date'', ''Not Found'')];
          extracted_info = (case search place_rx text of
              Some place_match \<Rightarrow> AList.update ''place_of_issue'' place_match extracted_info
            | None \<Rightarrow> extracted_info);
          extracted_info = (case search uid_rx text of
              Some uid_match \<Rightarrow> AList.update ''uid_no'' uid_match extracted_info
            | None \<Rightarrow> extracted_info);
          extracted_info = (case search passport_rx text of
              Some passport_match \<Rightarrow> AList.update ''passport_no'' passport_match extracted_info
            | None \<Rightarrow> extracted_info);
          date_matches = findall date_rx text;
          extracted_info = (if length date_matches \<ge> 2
            then AList.update ''expiry_date'' (date_matches ! 1)
                   (AList.update ''issue_date'' (date_matches ! 0) extracted_info)
            else extracted_info);
          extracted_info = (case search name_rx text of
              Some name_match \<Rightarrow> AList.update ''name'' name_match extracted_info
            | None \<Rightarrow> extracted_info);
          extracted_info = (if contains ''PARTNER'' text \<or> contains ''Partner'' text
            then AList.update ''profession'' ''Partner'' extracted_info
            else extracted_info);
          extracted_info = (case search sponsor_rx text of
              Some sponsor_match \<Rightarrow> AList.update ''sponsor'' sponsor_match extracted_info
            | None \<Rightarrow> extracted_info)
      in extracted_info)"

section \<open>process\_and\_query\<close>

text \<open>
  The collaborators are parameters. \<open>chain_run n text\<close> is the outcome of the retrieval and
  completion step (splitting, indexing, similarity search and \<open>chain.run\<close>) when it is run
  for the \<open>n\<close>-th time: the model's raw response, or \<open>None\<close> when the step raises.
  \<open>json_loads\<close> is \<open>json.loads\<close> with its three outcomes. \<open>upload_file\<close> gives the
  bytes that reach the bucket (\<open>None\<close> when the upload raises), \<open>detect_document_text\<close>
  the blocks Textract reports for a stored object, and \<open>delete_object\<close> tells whether the
  delete request succeeds.
\<close>

record block =
  BlockType :: string
  Text :: "string option"

record services =
  chain_run :: "nat \<Rightarrow> string \<Rightarrow> string option"
  json_loads :: "string \<Rightarrow> loaded"
  upload_file :: "string \<Rightarrow> string option"
  detect_document_text :: "string \<Rightarrow> string \<Rightarrow> string \<Rightarrow> block list option"
  delete_object :: "string \<Rightarrow> string \<Rightarrow> bool"

record world =
  s3 :: "string \<times> string \<rightharpoonup> string"
  chain_runs :: nat

text \<open>
  \<open>key in value\<close> and \<open>value[key].upper()\<close> on a parsed value; \<open>None\<close> is the
  \<open>TypeError\<close> or \<open>AttributeError\<close> Python raises.
\<close>

fun py_in :: "string \<Rightarrow> json \<Rightarrow> bool option" where
  "py_in k (JObj kvs) = Some (map_of kvs k \<noteq> None)"
| "py_in k (JArr xs) = Some (JStr (ustr k) \<in> set xs)"
| "py_in k (JStr s) = Some (contains (ustr k) s)"
| "py_in k _ = None"

fun getitem_upper :: "json \<Rightarrow> string \<Rightarrow> ustring option" where
  "getitem_upper (JObj kvs) k = (case map_of kvs k of Some (JStr v) \<Rightarrow> Some (upper v) | _ \<Rightarrow> None)"
| "getitem_upper _ k = None"

fun setitem :: "json \<Rightarrow> string \<Rightarrow> ustring \<Rightarrow> json" where
  "setitem (JObj kvs) k v = JObj (AList.update k (JStr v) kvs)"
| "setitem j k v = j"

text \<open>
  The post-processing of a parsed response (the disambiguation pass): both tests are
  made on the upper-cased values read before any assignment, and both assignments write
  those upper-cased values.
\<close>

definition swap_needed :: "ustring \<Rightarrow> bool" where
  "swap_needed prof_value =
     (contains (ustr ''SERVICES CO'') prof_value \<or> contains (ustr ''DATA MANAGEMENT'') prof_value)"

definition just_partner :: "ustring \<Rightarrow> bool" where
  "just_partner sponsor_value =
     (strip sponsor_value \<in> set [ustr ''PARTNER'', ustr ''PARTNER (FEMALE)''])"

definition assign_swapped :: "json \<Rightarrow> ustring \<Rightarrow> ustring \<Rightarrow> json" where
  "assign_swapped info sponsor_value prof_value =
     setitem (setitem info ''profession'' sponsor_value) ''sponsor'' prof_value"

definition disambiguate :: "json \<Rightarrow> json option" where
  "disambiguate extracted_info =
     (case py_in ''profession'' extracted_info of
        None \<Rightarrow> None
      | Some False \<Rightarrow> Some extracted_info
      | Some True \<Rightarrow>
         (case py_in ''sponsor'' extracted_info of
            None \<Rightarrow> None
          | Some False \<Rightarrow> Some extracted_info
          | Some True \<Rightarrow>
             (case getitem_upper extracted_info ''profession'' of
                None \<Rightarrow> None
              | Some prof_value \<Rightarrow>
                 (case getitem_upper extracted_info ''sponsor'' of
                    None \<Rightarrow> None
                  | Some sponsor_value \<Rightarrow>
                     (let info1 = (if swap_needed prof_value
                                   then assign_swapped extracted_info sponsor_value prof_value
                                   else extracted_info);
                          info2 = (if just_partner sponsor_value
                                   then assign_swapped info1 sponsor_value prof_value
                                   else info1)
                      in Some info2)))))"

definition process_and_query :: "services \<Rightarrow> string \<Rightarrow> world \<Rightarrow> (error + json) \<times> world" where
  "process_and_query sv text w =
     (let w' = w\<lparr>chain_runs := chain_runs w + 1\<rparr> in
      case chain_run sv (chain_runs w) text of
        None \<Rightarrow> (Inl Error_in_LLM_processing, w')
      | Some result \<Rightarrow>
         (case json_loads sv result of
            JSONDecodeError \<Rightarrow> (Inr (dict_json (extract_using_regex result)), w')
          | Other_exception \<Rightarrow> (Inl Error_in_LLM_processing, w')
          | Loaded extracted_info \<Rightarrow>
             (case disambiguate extracted_info of
                None \<Rightarrow> (Inl Error_in_LLM_processing, w')
              | Some info \<Rightarrow> (Inr info, w'))))"

section \<open>extract\_text\_from\_image\<close>

text \<open>\<open>os.path.basename\<close>: what follows the last slash.\<close>

definition basename :: "string \<Rightarrow> string" where
  "basename path = rev (takeWhile (\<lambda>c. c \<noteq> CHR ''/'') (rev path))"

text \<open>The texts of the \<open>LINE\<close> blocks, in order; a \<open>LINE\<close> block without text is a \<open>KeyError\<close>.\<close>

fun line_texts :: "block list \<Rightarrow> string list option" where
  "line_texts [] = Some []"
| "line_texts (b # bs) =
     (if BlockType b = ''LINE''
      then (case Text b of
              None \<Rightarrow> None
            | Some t \<Rightarrow> (case line_texts bs of None \<Rightarrow> None | Some ts \<Rightarrow> Some (t # ts)))
      else line_texts bs)"

definition extract_text_from_image ::
    "services \<Rightarrow> string \<Rightarrow> string \<Rightarrow> world \<Rightarrow> (error + json) \<times> world" where
  "extract_text_from_image sv image_path bucket_name w =
     (let s3_file_path = ''emirates_ids/'' @ basename image_path in
      case upload_file sv image_path of
        None \<Rightarrow> (Inl Error_processing_Emirates_ID, w)
      | Some body \<Rightarrow>
         (let w1 = w\<lparr>s3 := (s3 w)((bucket_name, s3_file_path) \<mapsto> body)\<rparr> in
          case detect_document_text sv bucket_name s3_file_path body of
            None \<Rightarrow> (Inl Error_processing_Emirates_ID, w1)
          | Some blocks \<Rightarrow>
             (case line_texts blocks of
                None \<Rightarrow> (Inl Error_processing_Emirates_ID, w1)
              | Some lines \<Rightarrow>
                 (case process_and_query sv (join '' '' lines) w1 of
                    (Inl e, w2) \<Rightarrow> (Inl Error_processing_Emirates_ID, w2)
                  | (Inr extracted_info, w2) \<Rightarrow>
                     (if delete_object sv bucket_name s3_file_path
                      then (Inr extracted_info,
                            w2\<lparr>s3 := (s3 w2)((bucket_name, s3_file_path) := None)\<rparr>)
                      else (Inl Error_processing_Emirates_ID, w2))))))"

section \<open>Reference definitions and fixtures\<close>


text \<open>
  The rules of the pass whose assignment is executed, in order (lines 113 to 119: two
  \<open>if\<close> statements, the second not an \<open>elif\<close>).
\<close>

datatype rule = Company_in_profession | Partner_in_sponsor


text \<open>
  Collaborators with fixed answers, for the concrete runs below: the model's reply and
  what \<open>json.loads\<close> makes of it, the blocks Textract reports, and whether the delete
  request succeeds. The upload always succeeds.
\<close>

definition stub_services ::
    "string option \<Rightarrow> loaded \<Rightarrow> block list option \<Rightarrow> bool \<Rightarrow> services" where
  "stub_services reply parsed blocks deleted =
     \<lparr>chain_run = (\<lambda>n text. reply), json_loads = (\<lambda>s. parsed),
      upload_file = (\<lambda>path. Some ''image bytes''),
      detect_document_text = (\<lambda>bucket name body. blocks),
      delete_object = (\<lambda>bucket name. deleted)\<rparr>"

definition empty_world :: world where
  "empty_world = \<lparr>s3 = Map.empty, chain_runs = 0\<rparr>"




section \<open>Auxiliary notions for the proofs\<close>

text \<open>
  \<open>lastc c w\<close> is the character before the cursor once \<open>w\<close> has been read from a position
  whose previous character was \<open>c\<close>. A pattern \<open>consumes\<close> when each of its matches reads at
  least one character. \<open>or_else\<close> and \<open>set_if_match\<close> name the two idioms of
  \<open>extract_using_regex\<close>: a value or its default, and an assignment made only on a match.
\<close>

definition lastc :: "char option \<Rightarrow> string \<Rightarrow> char option" where
  "lastc c w = (if w = [] then c else Some (last w))"

fun consumes :: "rx \<Rightarrow> bool" where
  "consumes Eps = False"
| "consumes (Sym p) = True"
| "consumes Bnd = False"
| "consumes (Cat a b) = (consumes a \<or> consumes b)"
| "consumes (Alt a b) = (consumes a \<and> consumes b)"
| "consumes (Rep a m n) = (0 < m)"

definition or_else :: "string option \<Rightarrow> string \<Rightarrow> string" where
  "or_else m d = (case m of Some v \<Rightarrow> v | None \<Rightarrow> d)"

definition set_if_match :: "string \<Rightarrow> string option \<Rightarrow> dict \<Rightarrow> dict" where
  "set_if_match k m d = (case m of None \<Rightarrow> d | Some v \<Rightarrow> AList.update k v d)"

section \<open>Properties of the matcher\<close>

lemma lastc_Nil [simp]: "lastc c [] = c"
  by (simp add: lastc_def)

lemma lastc_append [simp]: "lastc (lastc c u) v = lastc c (u @ v)"
  by (simp add: lastc_def)

lemma lastc_single [simp]: "lastc c [x] = Some x"
  by (simp add: lastc_def)

declare run.simps(7) [simp del]

lemma in_run_Rep:
  "s' \<in> set (run (Rep a m n) s) \<longleftrightarrow>
     (n \<noteq> Some 0 \<and> (\<exists>mid \<in> set (run a s). length (snd mid) < length (snd s)
         \<and> s' \<in> set (run (Rep a (m - 1) (map_option (\<lambda>k. k - 1) n)) mid)))
     \<or> (m = 0 \<and> s' = s)"
  by (subst run.simps(7)) auto

lemma in_run_Cat:
  "s' \<in> set (run (Cat a b) s) \<longleftrightarrow> (\<exists>mid \<in> set (run a s). s' \<in> set (run b mid))"
  by simp

lemma run_suffix:
  "s' \<in> set (run r s) \<Longrightarrow> \<exists>w. snd s = w @ snd s' \<and> fst s' = lastc (fst s) w"
proof (induction r s arbitrary: s' rule: run.induct)
  case (5 a b s)
  then obtain mid where mid: "mid \<in> set (run a s)" and s': "s' \<in> set (run b mid)"
    by auto
  from "5.IH"(1)[OF mid] obtain u where u: "snd s = u @ snd mid" "fst mid = lastc (fst s) u"
    by blast
  from "5.IH"(2)[OF mid s'] obtain v where v: "snd mid = v @ snd s'" "fst s' = lastc (fst mid) v"
    by blast
  from u v show ?case
    by (intro exI[of _ "u @ v"]) simp
next
  case (7 a m n s)
  show ?case
  proof (cases "m = 0 \<and> s' = s")
    case True
    then show ?thesis
      by (intro exI[of _ "[]"]) simp
  next
    case False
    with "7.prems" in_run_Rep[of s' a m n s] obtain mid where n: "n \<noteq> Some 0"
      and mid: "mid \<in> set (run a s)" "length (snd mid) < length (snd s)"
      and s': "s' \<in> set (run (Rep a (m - 1) (map_option (\<lambda>k. k - 1) n)) mid)"
      by blast
    from "7.IH"(1)[OF n mid(1)] obtain u where u: "snd s = u @ snd mid" "fst mid = lastc (fst s) u"
      by blast
    from mid have "mid \<in> set (filter (\<lambda>s'. length (snd s') < length (snd s)) (run a s))"
      by simp
    from "7.IH"(2)[OF n this s'] obtain v where v: "snd mid = v @ snd s'" "fst s' = lastc (fst mid) v"
      by blast
    from u v show ?thesis
      by (intro exI[of _ "u @ v"]) simp
  qed
next
  case (6 a b s)
  from "6.prems" have "s' \<in> set (run a s) \<or> s' \<in> set (run b s)" by simp
  then show ?case using "6.IH" by blast
qed (auto split: if_splits simp: lastc_def)

lemma run_shorter: "s' \<in> set (run r s) \<Longrightarrow> length (snd s') \<le> length (snd s)"
  using run_suffix[of s' r s] by auto

lemma run_consumes:
  "consumes r \<Longrightarrow> s' \<in> set (run r s) \<Longrightarrow> length (snd s') < length (snd s)"
proof (induction r s arbitrary: s' rule: run.induct)
  case (5 a b s)
  then obtain mid where mid: "mid \<in> set (run a s)" and s': "s' \<in> set (run b mid)"
    by auto
  from run_shorter[OF mid] have 1: "length (snd mid) \<le> length (snd s)" .
  from run_shorter[OF s'] have 2: "length (snd s') \<le> length (snd mid)" .
  from "5.prems"(1) have "consumes a \<or> consumes b" by simp
  then show ?case
  proof
    assume "consumes a"
    from "5.IH"(1)[OF this mid] 2 show ?thesis by simp
  next
    assume "consumes b"
    from "5.IH"(2)[OF mid this s'] 1 show ?thesis by simp
  qed
next
  case (7 a m n s)
  from "7.prems"(1) have "m \<noteq> 0" by simp
  with "7.prems"(2) in_run_Rep[of s' a m n s] obtain mid
    where mid: "mid \<in> set (run a s)" "length (snd mid) < length (snd s)"
      and s': "s' \<in> set (run (Rep a (m - 1) (map_option (\<lambda>k. k - 1) n)) mid)"
    by blast
  from run_shorter[OF s'] mid show ?case by simp
qed (auto split: if_splits)

lemma search_from_nonempty:
  "consumes r \<Longrightarrow> search_from r c xs = Some m \<Longrightarrow> m \<noteq> []"
proof (induction xs arbitrary: c)
  case Nil
  then obtain s' where "s' \<in> set (run r (c, []))"
    by (cases "run r (c, [])") auto
  from run_consumes[OF Nil(1) this] show ?case by simp
next
  case (Cons x xs)
  show ?case
  proof (cases "run r (c, x # xs)")
    case Nil
    with Cons show ?thesis by simp
  next
    case (Cons s' ss)
    then have "s' \<in> set (run r (c, x # xs))" by simp
    from run_consumes[OF Cons.prems(1) this] have "length (snd s') < length (x # xs)" by simp
    with Cons Cons.prems(2) show ?thesis by (cases s') auto
  qed
qed

lemma findall_from_nonempty:
  "consumes r \<Longrightarrow> m \<in> set (findall_from r c xs) \<Longrightarrow> m \<noteq> []"
proof (induction r c xs rule: findall_from.induct)
  case (1 r c)
  then obtain s' where "s' \<in> set (run r (c, []))"
    by (cases "run r (c, [])") auto
  from run_consumes[OF 1(1) this] show ?case by simp
next
  case (2 r c x xs)
  show ?case
  proof (cases "run r (c, x # xs)")
    case Nil
    with 2 show ?thesis by simp
  next
    case (Cons s' ss)
    obtain c' rest where s': "s' = (c', rest)" by (cases s')
    from Cons have "s' \<in> set (run r (c, x # xs))" by simp
    from run_consumes[OF "2.prems"(1) this] s' have less: "length rest < length (x # xs)" by simp
    with "2.prems"(2) Cons s'
    have "m = take (length (x # xs) - length rest) (x # xs) \<or> m \<in> set (findall_from r c' rest)"
      by auto
    then show ?thesis
    proof
      assume "m = take (length (x # xs) - length rest) (x # xs)"
      with less show ?thesis by auto
    next
      assume "m \<in> set (findall_from r c' rest)"
      from "2.IH"(2)[OF Cons s'[symmetric] less "2.prems"(1) this] show ?thesis .
    qed
  qed
qed

lemma consumes_patterns:
  "consumes place_rx" "consumes uid_rx" "consumes passport_rx" "consumes date_rx"
  "consumes name_rx" "consumes sponsor_rx"
  by (simp_all add: place_rx_def uid_rx_def passport_rx_def date_rx_def name_rx_def
      sponsor_rx_def lit_def lit_ci_def exactly_def plus_def)

lemma lastc_Cons: "lastc c (x # pre) = lastc (Some x) pre"
  by (simp add: lastc_def)

lemma search_from_Some:
  "search_from r c xs = Some m \<Longrightarrow>
     \<exists>pre post s'. xs = pre @ m @ post \<and> s' \<in> set (run r (lastc c pre, m @ post)) \<and> snd s' = post
       \<and> (\<forall>pre' rest'. xs = pre' @ rest' \<and> length pre' < length pre
             \<longrightarrow> run r (lastc c pre', rest') = [])"
proof (induction xs arbitrary: c)
  case Nil
  then have ne: "run r (c, []) \<noteq> []" and m: "m = []"
    by (auto split: list.splits)
  then obtain s' where s': "s' \<in> set (run r (c, []))"
    by (cases "run r (c, [])") auto
  from run_shorter[OF s'] have "snd s' = []" by simp
  with s' m show ?case
    by (intro exI[of _ "[]"] exI[of _ s']) simp
next
  case (Cons x xs)
  show ?case
  proof (cases "run r (c, x # xs)")
    case Nil
    with Cons.prems have "search_from r (Some x) xs = Some m" by simp
    from Cons.IH[OF this] obtain pre post s' where
      xs: "xs = pre @ m @ post" and s': "s' \<in> set (run r (lastc (Some x) pre, m @ post))"
      "snd s' = post"
      and left: "\<forall>pre' rest'. xs = pre' @ rest' \<and> length pre' < length pre
             \<longrightarrow> run r (lastc (Some x) pre', rest') = []"
      by blast
    have "\<forall>pre' rest'. x # xs = pre' @ rest' \<and> length pre' < length (x # pre)
             \<longrightarrow> run r (lastc c pre', rest') = []"
    proof (intro allI impI)
      fix pre' rest'
      assume a: "x # xs = pre' @ rest' \<and> length pre' < length (x # pre)"
      show "run r (lastc c pre', rest') = []"
      proof (cases pre')
        case Nil
        with a \<open>run r (c, x # xs) = []\<close> show ?thesis by simp
      next
        case (Cons y ys)
        with a have "xs = ys @ rest' \<and> length ys < length pre" "y = x" by auto
        with left Cons show ?thesis by (simp add: lastc_Cons)
      qed
    qed
    with xs s' show ?thesis
      by (intro exI[of _ "x # pre"] exI[of _ post] exI[of _ s']) (simp add: lastc_Cons)
  next
    case (Cons s1 ss)
    obtain c' rest where s1: "s1 = (c', rest)" by (cases s1)
    from Cons have mem: "s1 \<in> set (run r (c, x # xs))" by simp
    from run_suffix[OF mem] s1 obtain w where w: "x # xs = w @ rest" by auto
    from Cons s1 Cons.prems have "m = take (length (x # xs) - length rest) (x # xs)" by simp
    with w have "m = w" by simp
    with w mem s1 show ?thesis
      by (intro exI[of _ "[]"] exI[of _ rest] exI[of _ s1]) simp
  qed
qed

lemma search_from_None:
  "search_from r c xs = None \<Longrightarrow> xs = pre @ rest \<Longrightarrow> run r (lastc c pre, rest) = []"
proof (induction xs arbitrary: c pre)
  case Nil
  then show ?case by (auto split: list.splits)
next
  case (Cons x xs)
  from Cons.prems(1) have e: "run r (c, x # xs) = []" and n: "search_from r (Some x) xs = None"
    by (auto split: list.splits)
  show ?case
  proof (cases pre)
    case Nil
    with e Cons.prems(2) show ?thesis by simp
  next
    case (Cons y ys)
    with Cons.prems(2) have "xs = ys @ rest" "y = x" by auto
    from Cons.IH[OF n this(1)] Cons \<open>y = x\<close> show ?thesis by (simp add: lastc_Cons)
  qed
qed

lemma run_lit:
  "(c', xs') \<in> set (run (chars (\<lambda>x. Sym (\<lambda>c. c = x)) s) (c, xs)) \<longleftrightarrow>
     (xs = s @ xs' \<and> c' = lastc c s)"
proof (induction "\<lambda>x. Sym (\<lambda>c. c = x)" s arbitrary: c xs c' xs' rule: chars.induct)
  case 1
  show ?case by auto
next
  case (2 x)
  show ?case by (cases xs) (auto simp: lastc_def)
next
  case (3 x y ys)
  show ?case
    by (cases xs) (auto simp: 3 lastc_def)
qed

lemma in_run_lit:
  "s' \<in> set (run (lit s) (c, xs)) \<longleftrightarrow> (xs = s @ snd s' \<and> fst s' = lastc c s)"
  using run_lit[of "fst s'" "snd s'" s c xs] unfolding lit_def by simp

section \<open>Properties of extract\_using\_regex\<close>

lemma set_if_match_Cons:
  "set_if_match k m ((k', v') # d) =
     (if k = k' then (k', or_else m v') # d else (k', v') # set_if_match k m d)"
  by (cases m) (simp_all add: set_if_match_def or_else_def)

lemma fold_if_updates:
  "(if b then AList.update k2 v2 (AList.update k1 v1 d) else d)
     = set_if_match k2 (if b then Some v2 else None) (set_if_match k1 (if b then Some v1 else None) d)"
  "(if b then AList.update k1 v1 d else d) = set_if_match k1 (if b then Some v1 else None) d"
  by (simp_all add: set_if_match_def)

lemma ustr_eq_Nil [simp]: "ustr s = [] \<longleftrightarrow> s = []"
  by (simp add: ustr_def)

lemma or_else_if: "or_else (if b then Some v else None) d = (if b then v else d)"
  by (simp add: or_else_def)

lemma extract_using_regex_fields:
  "extract_using_regex text =
     [(''name'', or_else (search name_rx text) ''Not Found''),
      (''uid_no'', or_else (search uid_rx text) ''Not Found''),
      (''passport_no'', or_else (search passport_rx text) ''Not Found''),
      (''profession'', if contains ''PARTNER'' text \<or> contains ''Partner'' text
                       then ''Partner'' else ''Not Found''),
      (''sponsor'', or_else (search sponsor_rx text) ''Not Found''),
      (''place_of_issue'', or_else (search place_rx text) ''Not Found''),
      (''issue_date'', if 2 \<le> length (findall date_rx text)
                       then findall date_rx text ! 0 else ''Not Found''),
      (''expiry_date'', if 2 \<le> length (findall date_rx text)
                        then findall date_rx text ! 1 else ''Not Found'')]"
  (is "_ = ?fields")
proof -
  have "extract_using_regex text =
     (let extracted_info = [(''name'', ''Not Found''), (''uid_no'', ''Not Found''),
            (''passport_no'', ''Not Found''), (''profession'', ''Not Found''),
            (''sponsor'', ''Not Found''), (''place_of_issue'', ''Not Found''),
            (''issue_date'', ''Not Found''), (''expiry_date'', ''Not Found'')];
          extracted_info = set_if_match ''place_of_issue'' (search place_rx text) extracted_info;
          extracted_info = set_if_match ''uid_no'' (search uid_rx text) extracted_info;
          extracted_info = set_if_match ''passport_no'' (search passport_rx text) extracted_info;
          date_matches = findall date_rx text;
          extracted_info = set_if_match ''expiry_date''
              (if length date_matches \<ge> 2 then Some (date_matches ! 1) else None)
              (set_if_match ''issue_date''
                (if length date_matches \<ge> 2 then Some (date_matches ! 0) else None) extracted_info);
          extracted_info = set_if_match ''name'' (search name_rx text) extracted_info;
          extracted_info = set_if_match ''profession''
              (if contains ''PARTNER'' text \<or> contains ''Partner'' text then Some ''Partner'' else None)
              extracted_info;
          extracted_info = set_if_match ''sponsor'' (search sponsor_rx text) extracted_info
      in extracted_info)"
    unfolding extract_using_regex_def fold_if_updates set_if_match_def[symmetric] ..
  also have "\<dots> = ?fields"
    by (simp add: Let_def set_if_match_Cons or_else_if)
  finally show ?thesis .
qed

lemma search_sponsor_shape:
  assumes "search sponsor_rx text = Some m"
  shows "\<exists>mid. m = ''MACKSOFY'' @ mid @ ''SERVICES CO.''" and "sublist m text"
proof -
  from assms search_from_Some[of sponsor_rx None "text" m] obtain pre post s' where
    split: "text = pre @ m @ post" and s': "s' \<in> set (run sponsor_rx (lastc None pre, m @ post))"
    and post: "snd s' = post"
    unfolding search_def by blast
  from split show "sublist m text" by (auto simp: sublist_def)
  from s' obtain mid1 mid2 where
    1: "mid1 \<in> set (run (lit ''MACKSOFY'') (lastc None pre, m @ post))" and
    2: "mid2 \<in> set (run (Rep (Sym (\<lambda>c. code c \<noteq> 10)) 0 None) mid1)" and
    3: "s' \<in> set (run (lit ''SERVICES CO.'') mid2)"
    unfolding sponsor_rx_def in_run_Cat by blast
  from 1 have a: "m @ post = ''MACKSOFY'' @ snd mid1"
    unfolding in_run_lit by (rule conjunct1)
  from run_suffix[OF 2] obtain w where b: "snd mid1 = w @ snd mid2" by blast
  from 3 have "s' \<in> set (run (lit ''SERVICES CO.'') (fst mid2, snd mid2))" by simp
  then have "snd mid2 = ''SERVICES CO.'' @ snd s'"
    unfolding in_run_lit by (rule conjunct1)
  with post have c: "snd mid2 = ''SERVICES CO.'' @ post" by (simp only:)
  from a b c have "m @ post = (''MACKSOFY'' @ w @ ''SERVICES CO.'') @ post" by simp
  then have "m = ''MACKSOFY'' @ w @ ''SERVICES CO.''" by (simp only: append_same_eq)
  then show "\<exists>mid. m = ''MACKSOFY'' @ mid @ ''SERVICES CO.''" by blast
qed

lemma or_else_nonempty:
  "consumes r \<Longrightarrow> or_else (search r text) ''Not Found'' \<noteq> []"
  by (cases "search r text") (auto simp: or_else_def search_def dest: search_from_nonempty)

lemma findall_nth_nonempty:
  "consumes r \<Longrightarrow> i < length (findall r text) \<Longrightarrow> findall r text ! i \<noteq> []"
  using findall_from_nonempty[of r "findall r text ! i" None "text"]
  by (simp add: findall_def)

lemma extract_using_regex_complete:
  "complete_record (dict_json (extract_using_regex text))"
proof -
  have dates: "2 \<le> length (findall date_rx text) \<Longrightarrow>
      findall date_rx text ! 0 \<noteq> [] \<and> findall date_rx text ! Suc 0 \<noteq> []"
  proof -
    assume "2 \<le> length (findall date_rx text)"
    then have 0: "0 < length (findall date_rx text)" and 1: "1 < length (findall date_rx text)"
      by arith+
    from findall_nth_nonempty[OF consumes_patterns(4) 0]
      findall_nth_nonempty[OF consumes_patterns(4) 1]
    show ?thesis by simp
  qed
  show ?thesis
    by (simp add: extract_using_regex_fields complete_record_def bound_to_text_def dict_json_def
        schema_keys_def or_else_nonempty consumes_patterns dates)
qed

text \<open>
  C6. \<open>extract_using_regex\<close> is a total function of the text (it is defined by terminating
  recursion and returns the same record whenever it is given the same text): for every
  text, the empty one included, the record has exactly the eight schema keys, each bound to
  a non-empty string, and each field is the text its rule matched or, when the rule has no
  match, \<open>Not Found\<close>.
\<close>

theorem extract_using_regex_total:
  "map fst (extract_using_regex text) = schema_keys
   \<and> complete_record (dict_json (extract_using_regex text))
   \<and> extract_using_regex text =
     [(''name'', or_else (search name_rx text) ''Not Found''),
      (''uid_no'', or_else (search uid_rx text) ''Not Found''),
      (''passport_no'', or_else (search passport_rx text) ''Not Found''),
      (''profession'', if contains ''PARTNER'' text \<or> contains ''Partner'' text
                       then ''Partner'' else ''Not Found''),
      (''sponsor'', or_else (search sponsor_rx text) ''Not Found''),
      (''place_of_issue'', or_else (search place_rx text) ''Not Found''),
      (''issue_date'', if 2 \<le> length (findall date_rx text)
                       then findall date_rx text ! 0 else ''Not Found''),
      (''expiry_date'', if 2 \<le> length (findall date_rx text)
                        then findall date_rx text ! 1 else ''Not Found'')]
   \<and> extract_using_regex [] =
     [(''name'', ''Not Found''), (''uid_no'', ''Not Found''), (''passport_no'', ''Not Found''),
      (''profession'', ''Not Found''), (''sponsor'', ''Not Found''),
      (''place_of_issue'', ''Not Found''), (''issue_date'', ''Not Found''),
      (''expiry_date'', ''Not Found'')]"
proof (intro conjI)
  show "map fst (extract_using_regex text) = schema_keys"
    by (simp add: extract_using_regex_fields schema_keys_def)
  show "complete_record (dict_json (extract_using_regex text))"
    by (rule extract_using_regex_complete)
  show "extract_using_regex [] =
     [(''name'', ''Not Found''), (''uid_no'', ''Not Found''), (''passport_no'', ''Not Found''),
      (''profession'', ''Not Found''), (''sponsor'', ''Not Found''),
      (''place_of_issue'', ''Not Found''), (''issue_date'', ''Not Found''),
      (''expiry_date'', ''Not Found'')]"
    by code_simp
qed (rule extract_using_regex_fields)

text \<open>
  C10. In the record of \<open>extract_using_regex\<close> the profession is \<open>Partner\<close> or
  \<open>Not Found\<close>, so its upper-cased form never triggers the swap test of the disambiguation
  pass, and the sponsor is \<open>Not Found\<close> or a part of the text that starts with
  \<open>MACKSOFY\<close> and ends with \<open>SERVICES CO.\<close>
\<close>

theorem extract_using_regex_profession_sponsor_classes:
  "\<exists>p s. map_of (extract_using_regex text) ''profession'' = Some p
      \<and> map_of (extract_using_regex text) ''sponsor'' = Some s
      \<and> (p = ''Partner'' \<or> p = ''Not Found'')
      \<and> \<not> swap_needed (upper (ustr p))
      \<and> (s = ''Not Found''
          \<or> (prefix ''MACKSOFY'' s \<and> suffix ''SERVICES CO.'' s \<and> sublist s text))"
proof -
  have u: "\<not> swap_needed (upper (ustr ''Partner''))" "\<not> swap_needed (upper (ustr ''Not Found''))"
    by code_simp+
  have s: "or_else (search sponsor_rx text) ''Not Found'' = ''Not Found''
      \<or> (prefix ''MACKSOFY'' (or_else (search sponsor_rx text) ''Not Found'')
          \<and> suffix ''SERVICES CO.'' (or_else (search sponsor_rx text) ''Not Found'')
          \<and> sublist (or_else (search sponsor_rx text) ''Not Found'') text)"
  proof (cases "search sponsor_rx text")
    case None
    then show ?thesis by (simp add: or_else_def)
  next
    case (Some m)
    from search_sponsor_shape[OF Some] obtain mid
      where "m = ''MACKSOFY'' @ mid @ ''SERVICES CO.''" "sublist m text" by blast
    then have "prefix ''MACKSOFY'' m \<and> suffix ''SERVICES CO.'' m \<and> sublist m text"
      by (auto simp: suffix_def intro: exI[of _ "''MACKSOFY'' @ mid"])
    with Some show ?thesis by (simp add: or_else_def)
  qed
  show ?thesis
    using u s by (auto simp add: extract_using_regex_fields)
qed

section \<open>The disambiguation pass\<close>


lemma upper_eq_Nil [simp]: "upper s = [] \<longleftrightarrow> s = []"
proof -
  have "upper_char c \<noteq> []" for c by (cases c) auto
  then show ?thesis by (cases s) (auto simp: upper_def)
qed

















text \<open>
  C4. The claim: the pass keeps the casing of the two values, and on
  profession = \<open>MACKSOFY DATA MANAGEMENT & CYBER SECURITY SERVICES CO.\<close>, sponsor = \<open>Partner\<close>
  it yields profession = \<open>Partner\<close>. The code assigns the upper-cased copies it made for
  the comparison: on this record the profession becomes \<open>PARTNER\<close>.
\<close>

theorem disambiguate_upper_cases_swapped_values:
  "disambiguate (JObj [(''profession'', JStr (ustr ''MACKSOFY DATA MANAGEMENT & CYBER SECURITY SERVICES CO.'')),
                       (''sponsor'', JStr (ustr ''Partner''))])
   = Some (JObj [(''profession'', JStr (ustr ''PARTNER'')),
                 (''sponsor'', JStr (ustr ''MACKSOFY DATA MANAGEMENT & CYBER SECURITY SERVICES CO.''))])"
  by code_simp

section \<open>The pipeline\<close>

lemma disambiguate_raises_iff:
  "disambiguate j = None \<longleftrightarrow>
     (case j of
        JObj kvs \<Rightarrow> map_of kvs ''profession'' \<noteq> None \<and> map_of kvs ''sponsor'' \<noteq> None
          \<and> \<not> ((\<exists>p. map_of kvs ''profession'' = Some (JStr p))
               \<and> (\<exists>s. map_of kvs ''sponsor'' = Some (JStr s)))
      | JArr xs \<Rightarrow> JStr (ustr ''profession'') \<in> set xs \<and> JStr (ustr ''sponsor'') \<in> set xs
      | JStr s \<Rightarrow> contains (ustr ''profession'') s \<and> contains (ustr ''sponsor'') s
      | _ \<Rightarrow> True)"
  by (cases j) (auto simp: disambiguate_def Let_def split: option.splits bool.splits json.splits)

text \<open>
  C3. The claim: a reply that fails to parse yields the record \<open>extract_using_regex\<close> makes
  of that reply, and only a failure of the model call propagates as an error. The code
  recovers \<open>JSONDecodeError\<close> alone: a reply that parses to a number makes the
  post-processing raise, and the error reaches the caller although the model call
  succeeded. As amended: when \<open>json.loads\<close> raises \<open>JSONDecodeError\<close> on the reply,
  \<open>process_and_query\<close> returns exactly the record \<open>extract_using_regex\<close> makes of the reply
  (not of the text it was given); it raises exactly when the model step fails, when
  \<open>json.loads\<close> raises another exception, or when the post-processing of the parsed value
  raises (\<open>disambiguate_raises_iff\<close> says when); in every case the model step has run once.
\<close>

theorem process_and_query_outcomes:
  "(chain_run sv (chain_runs w) text = Some result \<and> json_loads sv result = JSONDecodeError \<longrightarrow>
      process_and_query sv text w
        = (Inr (dict_json (extract_using_regex result)), w\<lparr>chain_runs := chain_runs w + 1\<rparr>))
   \<and> (fst (process_and_query sv text w) = Inl Error_in_LLM_processing \<longleftrightarrow>
        (case chain_run sv (chain_runs w) text of
           None \<Rightarrow> True
         | Some result \<Rightarrow>
            (case json_loads sv result of
               JSONDecodeError \<Rightarrow> False
             | Other_exception \<Rightarrow> True
             | Loaded j \<Rightarrow> disambiguate j = None)))
   \<and> snd (process_and_query sv text w) = w\<lparr>chain_runs := chain_runs w + 1\<rparr>"
  by (simp add: process_and_query_def Let_def split: option.splits loaded.splits)

theorem parsed_number_reply_raises:
  "process_and_query (stub_services (Some ''3'') (Loaded (JNum 3)) None True) ''AHMED'' empty_world
     = (Inl Error_in_LLM_processing, \<lparr>s3 = Map.empty, chain_runs = 1\<rparr>)"
  by (simp add: process_and_query_def stub_services_def empty_world_def disambiguate_def)

theorem process_and_query_outcomes_witness:
  "process_and_query (stub_services (Some ''Dubai Z1234567'') JSONDecodeError None True)
       ''Sharjah 784123456'' empty_world
     = (Inr (JObj [(''name'', JStr (ustr ''Not Found'')), (''uid_no'', JStr (ustr ''Not Found'')),
          (''passport_no'', JStr (ustr ''Z1234567'')), (''profession'', JStr (ustr ''Not Found'')),
          (''sponsor'', JStr (ustr ''Not Found'')), (''place_of_issue'', JStr (ustr ''Dubai'')),
          (''issue_date'', JStr (ustr ''Not Found'')), (''expiry_date'', JStr (ustr ''Not Found''))]),
        \<lparr>s3 = Map.empty, chain_runs = 1\<rparr>)
   \<and> dict_json (extract_using_regex ''Sharjah 784123456'')
     = JObj [(''name'', JStr (ustr ''Not Found'')), (''uid_no'', JStr (ustr ''784123456'')),
          (''passport_no'', JStr (ustr ''Not Found'')), (''profession'', JStr (ustr ''Not Found'')),
          (''sponsor'', JStr (ustr ''Not Found'')), (''place_of_issue'', JStr (ustr ''Sharjah'')),
          (''issue_date'', JStr (ustr ''Not Found'')), (''expiry_date'', JStr (ustr ''Not Found''))]"
proof -
  have fallback: "dict_json (extract_using_regex ''Dubai Z1234567'')
      = JObj [(''name'', JStr (ustr ''Not Found'')), (''uid_no'', JStr (ustr ''Not Found'')),
          (''passport_no'', JStr (ustr ''Z1234567'')), (''profession'', JStr (ustr ''Not Found'')),
          (''sponsor'', JStr (ustr ''Not Found'')), (''place_of_issue'', JStr (ustr ''Dubai'')),
          (''issue_date'', JStr (ustr ''Not Found'')), (''expiry_date'', JStr (ustr ''Not Found''))]"
    by code_simp
  have ocr: "dict_json (extract_using_regex ''Sharjah 784123456'')
     = JObj [(''name'', JStr (ustr ''Not Found'')), (''uid_no'', JStr (ustr ''784123456'')),
          (''passport_no'', JStr (ustr ''Not Found'')), (''profession'', JStr (ustr ''Not Found'')),
          (''sponsor'', JStr (ustr ''Not Found'')), (''place_of_issue'', JStr (ustr ''Sharjah'')),
          (''issue_date'', JStr (ustr ''Not Found'')), (''expiry_date'', JStr (ustr ''Not Found''))]"
    by code_simp
  have hyp: "chain_run (stub_services (Some ''Dubai Z1234567'') JSONDecodeError None True)
        (chain_runs empty_world) ''Sharjah 784123456'' = Some ''Dubai Z1234567''
      \<and> json_loads (stub_services (Some ''Dubai Z1234567'') JSONDecodeError None True)
        ''Dubai Z1234567'' = JSONDecodeError"
    by (simp add: stub_services_def)
  from process_and_query_outcomes
        [of "stub_services (Some ''Dubai Z1234567'') JSONDecodeError None True" empty_world
            "''Sharjah 784123456''" "''Dubai Z1234567''"] hyp
  have "process_and_query (stub_services (Some ''Dubai Z1234567'') JSONDecodeError None True)
       ''Sharjah 784123456'' empty_world
     = (Inr (dict_json (extract_using_regex ''Dubai Z1234567'')),
        empty_world\<lparr>chain_runs := chain_runs empty_world + 1\<rparr>)"
    by blast
  then show ?thesis
    by (simp add: fallback ocr empty_world_def)
qed





text \<open>
  C2. The claim: once the upload has succeeded the stored object is deleted before the
  operation returns, also when a later step fails. The code deletes only after
  \<open>process_and_query\<close> has returned a record: when Textract fails, the operation fails
  and the uploaded object is still in the bucket.
\<close>

theorem cleanup_skipped_when_textract_fails:
  "extract_text_from_image (stub_services None JSONDecodeError None True) ''/tmp/card.png'' ''ids'' empty_world
   = (Inl Error_processing_Emirates_ID,
      \<lparr>s3 = [(''ids'', ''emirates_ids/card.png'') \<mapsto> ''image bytes''], chain_runs = 0\<rparr>)"
  by (simp add: extract_text_from_image_def stub_services_def empty_world_def basename_def)

end
